theory Spec2Isabelle
  imports Complex_Main "HOL-Library.Sublist" "HOL-Library.Char_ord" "HOL-Library.List_Lexorder"
begin

section \<open>Values, errors and the external libraries\<close>

text \<open>
  The exceptions that the modelled code raises or lets through. \<open>ExternalError n\<close> stands
  for any other exception (a subclass of \<^verbatim>\<open>Exception\<close>, not of \<^verbatim>\<open>AttributeError\<close>) raised
  by an external collaborator: the converter, the encoder, the file system.
\<close>

datatype error =
    AttributeError
  | TypeError
  | ValueError
  | UnboundLocalError
  | UnpicklingError
  | UnidentifiedImageError
  | BinasciiError
  | OSError
  | ExternalError nat

type_synonym bytes = string

text \<open>
  The Python values that travel through the cache: raw image bytes and one-dimensional
  numeric arrays (\<^verbatim>\<open>np.array\<close>). Finite array entries are idealised as reals.
\<close>

datatype pyobj = PyBytes bytes | PyArray "real list"

text \<open>
  A blob held by the key-value store is either the pickle of some object or a byte string
  that \<^verbatim>\<open>pickle.loads\<close> rejects; the latter carries the exception that unpickling raises
  (the pickle documentation lists \<^verbatim>\<open>UnpicklingError\<close>, \<^verbatim>\<open>AttributeError\<close>, \<^verbatim>\<open>EOFError\<close>,
  \<^verbatim>\<open>ImportError\<close>, \<^verbatim>\<open>IndexError\<close>).
\<close>

datatype stored = Pickled pyobj | Corrupt error

definition pickle_dumps :: "pyobj \<Rightarrow> stored" where
  "pickle_dumps obj = Pickled obj"

text \<open>
  \<^verbatim>\<open>pickle.loads(cache.get(key))\<close>: \<^verbatim>\<open>cache.get\<close> returns \<^verbatim>\<open>None\<close> for an absent key, and
  \<^verbatim>\<open>pickle.loads(None)\<close> raises \<^verbatim>\<open>TypeError\<close>.
\<close>

fun pickle_loads :: "stored option \<Rightarrow> error + pyobj" where
  "pickle_loads None = Inl TypeError"
| "pickle_loads (Some (Pickled obj)) = Inr obj"
| "pickle_loads (Some (Corrupt e)) = Inl e"

subsection \<open>The key-value store (diskcache.Cache)\<close>

text \<open>
  The rows of the store, at most one per key after a \<open>cache_set\<close>. \<^verbatim>\<open>Cache.iterkeys()\<close>
  iterates the keys in database sort order, ascending by key; string keys compare by
  code point, which is the lexicographic order on \<open>string\<close>.
\<close>

type_synonym cache = "(string \<times> stored) list"

definition cache_set :: "cache \<Rightarrow> string \<Rightarrow> stored \<Rightarrow> cache" where
  "cache_set c k v = (k, v) # filter (\<lambda>row. fst row \<noteq> k) c"

definition cache_get :: "cache \<Rightarrow> string \<Rightarrow> stored option" where
  "cache_get c k = map_of c k"

definition iterkeys :: "cache \<Rightarrow> string list" where
  "iterkeys c = sort (remdups (map fst c))"

subsection \<open>String operations\<close>

definition endswith :: "string \<Rightarrow> string \<Rightarrow> bool" where
  "endswith s suf = suffix suf s"

definition startswith :: "string \<Rightarrow> string \<Rightarrow> bool" where
  "startswith s pre = prefix pre s"

text \<open>
  \<^verbatim>\<open>s.replace(old, new)\<close> replaces every non-overlapping occurrence of \<open>old\<close>, scanning from
  the left. The counter is the number of characters of a matched occurrence still to be
  skipped. (For the empty \<open>old\<close> Python inserts \<open>new\<close> around every character.)
\<close>

fun replace_from :: "string \<Rightarrow> string \<Rightarrow> nat \<Rightarrow> string \<Rightarrow> string" where
  "replace_from old new n [] = []"
| "replace_from old new (Suc n) (c # cs) = replace_from old new n cs"
| "replace_from old new 0 (c # cs) =
     (if prefix old (c # cs) then new @ replace_from old new (length old - 1) cs
      else c # replace_from old new 0 cs)"

definition py_replace :: "string \<Rightarrow> string \<Rightarrow> string \<Rightarrow> string" where
  "py_replace s old new =
     (if old = [] then new @ concat (map (\<lambda>c. c # new) s) else replace_from old new 0 s)"

text \<open>\<^verbatim>\<open>str(i)\<close> for a non-negative integer: its decimal digits.\<close>

definition digit_char :: "nat \<Rightarrow> char" where
  "digit_char d = ''0123456789'' ! d"

function str_nat :: "nat \<Rightarrow> string" where
  "str_nat n = (if n < 10 then [digit_char n] else str_nat (n div 10) @ [digit_char (n mod 10)])"
  by pat_completeness auto
termination
  by (relation "measure id") auto

declare str_nat.simps [simp del]

text \<open>\<^verbatim>\<open>posixpath.join\<close>: a component that starts with a slash discards what precedes it.\<close>

definition join2 :: "string \<Rightarrow> string \<Rightarrow> string" where
  "join2 path b =
     (if startswith b ''/'' then b
      else if path = [] \<or> endswith path ''/'' then path @ b
      else path @ ''/'' @ b)"

definition os_path_join :: "string \<Rightarrow> string list \<Rightarrow> string" where
  "os_path_join a ps = foldl join2 a ps"

section \<open>models/indexer.py: the embedding cache\<close>

text \<open>
  \<^verbatim>\<open>DiskCacheIndexer\<close>: the object holds one store; the methods write and read the two
  sibling keys of a base key.
\<close>

definition store_image :: "cache \<Rightarrow> string \<Rightarrow> pyobj \<Rightarrow> cache" where
  "store_image c key img = cache_set c (key @ ''_image'') (pickle_dumps img)"

definition store_embedding :: "cache \<Rightarrow> string \<Rightarrow> pyobj \<Rightarrow> cache" where
  "store_embedding c key embedding = cache_set c (key @ ''_embedding'') (pickle_dumps embedding)"

definition get_image :: "cache \<Rightarrow> string \<Rightarrow> error + pyobj" where
  "get_image c key = pickle_loads (cache_get c (key @ ''_image''))"

definition get_embedding :: "cache \<Rightarrow> string \<Rightarrow> error + pyobj" where
  "get_embedding c key = pickle_loads (cache_get c (key @ ''_embedding''))"

section \<open>The libraries called by the retriever\<close>

text \<open>
  A \<^verbatim>\<open>float64\<close> value: a finite number or one of the IEEE special values. The two zeros
  are one value \<open>Finite 0\<close>: they compare equal, and the only divisor of the code, a product
  of norms, is never a negative zero.
\<close>

datatype npfloat = Finite real | NaN | PosInf | NegInf

text \<open>What \<^verbatim>\<open>image.save\<close> does: it writes the file, or raises and may leave a file behind.\<close>

datatype save_outcome = Saved | SaveFailed bool

text \<open>
  The library functions, taken as they are. \<open>np_dot\<close> is \<^verbatim>\<open>np.dot\<close> on two arrays, its
  scalar result read as a \<^verbatim>\<open>float64\<close> (it raises on arrays of different lengths); \<open>np_norm\<close>
  is \<^verbatim>\<open>np.linalg.norm\<close>; \<open>float_round\<close> rounds the exact nonzero result of one \<^verbatim>\<open>float64\<close>
  operation (to a finite value, to zero on underflow, to an infinity on overflow).
  \<open>md5_hexdigest\<close> is \<^verbatim>\<open>hashlib.md5(data).hexdigest()\<close>; \<open>image_decodable\<close> says whether
  \<^verbatim>\<open>Image.open\<close> accepts the bytes; \<open>png_save\<close> is the outcome of \<^verbatim>\<open>image.save\<close> in PNG format
  for the image opened from the bytes; \<open>b64decode\<close> is \<^verbatim>\<open>base64.b64decode\<close> (\<open>None\<close> when it
  raises \<^verbatim>\<open>binascii.Error\<close>).
\<close>

record externals =
  np_dot :: "real list \<Rightarrow> real list \<Rightarrow> error + npfloat"
  np_norm :: "real list \<Rightarrow> npfloat"
  float_round :: "real \<Rightarrow> npfloat"
  md5_hexdigest :: "bytes \<Rightarrow> string"
  image_decodable :: "bytes \<Rightarrow> bool"
  png_save :: "bytes \<Rightarrow> save_outcome"
  b64decode :: "string \<Rightarrow> bytes option"

section \<open>models/retriever.py: similarity\<close>

text \<open>
  Multiplication and division of \<^verbatim>\<open>float64\<close> scalars. Neither raises in numpy: a division
  by zero yields \<open>NaN\<close> for \<open>0/0\<close> and a signed infinity otherwise, and \<open>NaN\<close> propagates.
\<close>

definition signed_inf :: "bool \<Rightarrow> npfloat" where
  "signed_inf positive = (if positive then PosInf else NegInf)"

fun np_multiply :: "externals \<Rightarrow> npfloat \<Rightarrow> npfloat \<Rightarrow> npfloat" where
  "np_multiply ext NaN y = NaN"
| "np_multiply ext x NaN = NaN"
| "np_multiply ext (Finite a) (Finite b) =
     (if a = 0 \<or> b = 0 then Finite 0 else float_round ext (a * b))"
| "np_multiply ext (Finite a) PosInf = (if a = 0 then NaN else signed_inf (0 < a))"
| "np_multiply ext (Finite a) NegInf = (if a = 0 then NaN else signed_inf (a < 0))"
| "np_multiply ext PosInf (Finite b) = (if b = 0 then NaN else signed_inf (0 < b))"
| "np_multiply ext NegInf (Finite b) = (if b = 0 then NaN else signed_inf (b < 0))"
| "np_multiply ext PosInf PosInf = PosInf"
| "np_multiply ext PosInf NegInf = NegInf"
| "np_multiply ext NegInf PosInf = NegInf"
| "np_multiply ext NegInf NegInf = PosInf"

fun np_true_divide :: "externals \<Rightarrow> npfloat \<Rightarrow> npfloat \<Rightarrow> npfloat" where
  "np_true_divide ext NaN y = NaN"
| "np_true_divide ext x NaN = NaN"
| "np_true_divide ext (Finite a) (Finite b) =
     (if b = 0 then (if a = 0 then NaN else signed_inf (0 < a))
      else if a = 0 then Finite 0
      else float_round ext (a / b))"
| "np_true_divide ext (Finite a) PosInf = Finite 0"
| "np_true_divide ext (Finite a) NegInf = Finite 0"
| "np_true_divide ext PosInf (Finite b) = signed_inf (0 \<le> b)"
| "np_true_divide ext NegInf (Finite b) = signed_inf (b < 0)"
| "np_true_divide ext PosInf PosInf = NaN"
| "np_true_divide ext PosInf NegInf = NaN"
| "np_true_divide ext NegInf PosInf = NaN"
| "np_true_divide ext NegInf NegInf = NaN"

text \<open>Comparison of \<^verbatim>\<open>float64\<close> values: every comparison with \<open>NaN\<close> is false.\<close>

fun np_lt :: "npfloat \<Rightarrow> npfloat \<Rightarrow> bool" where
  "np_lt NaN b = False"
| "np_lt a NaN = False"
| "np_lt (Finite x) (Finite y) = (x < y)"
| "np_lt (Finite x) PosInf = True"
| "np_lt (Finite x) NegInf = False"
| "np_lt PosInf b = False"
| "np_lt NegInf NegInf = False"
| "np_lt NegInf b = True"

text \<open>
  \<^verbatim>\<open>compute_similarity\<close>: the dot product divided by the product of the norms. There is
  no test of the norms before the division.
\<close>

definition compute_similarity :: "externals \<Rightarrow> real list \<Rightarrow> real list \<Rightarrow> error + npfloat" where
  "compute_similarity ext query_embedding document_embedding =
     (case np_dot ext query_embedding document_embedding of
        Inl e \<Rightarrow> Inl e
      | Inr d \<Rightarrow>
          Inr (np_true_divide ext d
                 (np_multiply ext (np_norm ext query_embedding)
                    (np_norm ext document_embedding))))"

section \<open>models/retriever.py: the disk-backed search\<close>

text \<open>One entry of the list built by \<^verbatim>\<open>retrieve_from_disk\<close>: a dict with three keys.\<close>

record hit =
  similarity :: npfloat
  image :: pyobj
  key :: string

text \<open>
  The model object \<^verbatim>\<open>RAG\<close>, as far as the retriever reads it. An attribute that may be
  absent is an option; \<open>encode_query\<close> and \<open>search\<close> return the exception they raise
  (\<open>AttributeError\<close> when the object has no such method). A native search result is an
  object whose \<^verbatim>\<open>base64\<close> attribute may be absent.
\<close>

datatype result = DictResult hit | NativeResult "string option"

record rag =
  use_disk_storage :: "bool option"
  disk_cache :: "cache option"
  encode_query :: "string \<Rightarrow> error + real list"
  search :: "string \<Rightarrow> int \<Rightarrow> error + result list"

text \<open>\<^verbatim>\<open>hasattr(RAG, 'use_disk_storage') and RAG.use_disk_storage\<close>\<close>

definition disk_mode :: "rag \<Rightarrow> bool" where
  "disk_mode RAG = (use_disk_storage RAG = Some True)"

text \<open>
  \<^verbatim>\<open>results.sort(key=lambda x: x['similarity'], reverse=True)\<close>. With \<^verbatim>\<open>reverse=True\<close>
  the list is reversed, sorted ascending and reversed again. The ascending sort compares
  keys with \<open><\<close> only. For a list of fewer than 64 entries it is the one below: the longest
  run at the front is found by comparing neighbours (a strictly descending run is
  reversed), and each later entry is put into the sorted front at the place found by
  binary search. A list of 64 entries or more is cut into such runs, which are merged;
  that gives the same list when no key is \<open>NaN\<close>, both being the stable sort, and the
  order of the merge with a \<open>NaN\<close> among 64 entries or more is not modelled.
\<close>

fun ascending_run :: "hit \<Rightarrow> hit list \<Rightarrow> nat" where
  "ascending_run prev [] = 0"
| "ascending_run prev (x # xs) =
     (if np_lt (similarity x) (similarity prev) then 0 else Suc (ascending_run x xs))"

fun descending_run :: "hit \<Rightarrow> hit list \<Rightarrow> nat" where
  "descending_run prev [] = 0"
| "descending_run prev (x # xs) =
     (if np_lt (similarity x) (similarity prev) then Suc (descending_run x xs) else 0)"

fun count_run :: "hit list \<Rightarrow> nat \<times> bool" where
  "count_run [] = (0, False)"
| "count_run [x] = (1, False)"
| "count_run (x # y # ys) =
     (if np_lt (similarity y) (similarity x) then (2 + descending_run y ys, True)
      else (2 + ascending_run y ys, False))"

function binary_search :: "hit \<Rightarrow> hit list \<Rightarrow> nat \<Rightarrow> nat \<Rightarrow> nat" where
  "binary_search pivot a l r =
     (if l < r then
        (if np_lt (similarity pivot) (similarity (a ! (l + (r - l) div 2)))
         then binary_search pivot a l (l + (r - l) div 2)
         else binary_search pivot a (l + (r - l) div 2 + 1) r)
      else l)"
  by pat_completeness auto
termination
  by (relation "measure (\<lambda>(pivot, a, l, r). r - l)") auto

declare binary_search.simps [simp del]

fun binarysort :: "hit list \<Rightarrow> hit list \<Rightarrow> hit list" where
  "binarysort front [] = front"
| "binarysort front (pivot # rest) =
     binarysort
       (take (binary_search pivot front 0 (length front)) front
          @ pivot # drop (binary_search pivot front 0 (length front)) front)
       rest"

definition sort_ascending :: "hit list \<Rightarrow> hit list" where
  "sort_ascending xs =
     binarysort
       (if snd (count_run xs) then rev (take (fst (count_run xs)) xs)
        else take (fst (count_run xs)) xs)
       (drop (fst (count_run xs)) xs)"

definition sort_reverse :: "hit list \<Rightarrow> hit list" where
  "sort_reverse xs = rev (sort_ascending (rev xs))"

text \<open>\<^verbatim>\<open>xs[:k]\<close>: a negative \<open>k\<close> counts from the end of the list.\<close>

definition slice_to :: "int \<Rightarrow> 'a list \<Rightarrow> 'a list" where
  "slice_to k xs = (if 0 \<le> k then take (nat k) xs else take (nat (int (length xs) + k)) xs)"

text \<open>\<^verbatim>\<open>np.dot\<close> against an object that is not a numeric array raises \<^verbatim>\<open>TypeError\<close>.\<close>

fun similarity_of :: "externals \<Rightarrow> real list \<Rightarrow> pyobj \<Rightarrow> error + npfloat" where
  "similarity_of ext q (PyArray d) = compute_similarity ext q d"
| "similarity_of ext q (PyBytes b) = Inl TypeError"

text \<open>The body of the loop over the keys, for a key that ends in \<^verbatim>\<open>_embedding\<close>.\<close>

definition scan_entry :: "externals \<Rightarrow> cache \<Rightarrow> real list \<Rightarrow> string \<Rightarrow> error + hit" where
  "scan_entry ext c query_embedding k =
     (case pickle_loads (cache_get c k) of
        Inl e \<Rightarrow> Inl e
      | Inr embedding \<Rightarrow>
          (case similarity_of ext query_embedding embedding of
             Inl e \<Rightarrow> Inl e
           | Inr sim \<Rightarrow>
               (case pickle_loads (cache_get c (py_replace k ''_embedding'' ''_image'')) of
                  Inl e \<Rightarrow> Inl e
                | Inr img \<Rightarrow> Inr \<lparr>similarity = sim, image = img, key = k\<rparr>)))"

fun scan_keys ::
  "externals \<Rightarrow> cache \<Rightarrow> real list \<Rightarrow> string list \<Rightarrow> hit list \<Rightarrow> error + hit list" where
  "scan_keys ext c query_embedding [] results = Inr results"
| "scan_keys ext c query_embedding (k # ks) results =
     (if endswith k ''_embedding'' then
        (case scan_entry ext c query_embedding k of
           Inl e \<Rightarrow> Inl e
         | Inr h \<Rightarrow> scan_keys ext c query_embedding ks (results @ [h]))
      else scan_keys ext c query_embedding ks results)"

definition retrieve_from_disk :: "externals \<Rightarrow> rag \<Rightarrow> string \<Rightarrow> int \<Rightarrow> error + hit list" where
  "retrieve_from_disk ext RAG query k =
     (case encode_query RAG query of
        Inl e \<Rightarrow> Inl e
      | Inr query_embedding \<Rightarrow>
          (case disk_cache RAG of
             None \<Rightarrow> Inl AttributeError
           | Some c \<Rightarrow>
               (case scan_keys ext c query_embedding (iterkeys c) [] of
                  Inl e \<Rightarrow> Inl e
                | Inr results \<Rightarrow> Inr (slice_to k (sort_reverse results)))))"

section \<open>models/retriever.py: materialization\<close>

text \<open>
  The file system as the materializer sees it: the directories made, the files present,
  and the log of the calls of \<^verbatim>\<open>image.save\<close>, oldest first.
\<close>

record filesystem =
  dirs :: "string set"
  files :: "string set"
  saves :: "string list"

definition makedirs :: "string \<Rightarrow> filesystem \<Rightarrow> filesystem" where
  "makedirs d fs = fs\<lparr>dirs := insert d (dirs fs)\<rparr>"

text \<open>
  \<^verbatim>\<open>image.save(image_path, format='PNG')\<close>: the call is logged; it writes the file, or it
  raises \<^verbatim>\<open>OSError\<close> (an image whose mode PNG cannot hold) and the file may be left behind.
\<close>

definition image_save ::
  "externals \<Rightarrow> string \<Rightarrow> bytes \<Rightarrow> filesystem \<Rightarrow> error option \<times> filesystem" where
  "image_save ext p data fs =
     (case png_save ext data of
        Saved \<Rightarrow> (None, fs\<lparr>files := insert p (files fs), saves := saves fs @ [p]\<rparr>)
      | SaveFailed left \<Rightarrow>
          (Some OSError,
           fs\<lparr>files := (if left then insert p (files fs) else files fs),
              saves := saves fs @ [p]\<rparr>))"

text \<open>
  Lines 70 to 76: the image data of one result, \<open>None\<close> when the result is skipped.
  Subscripting a native result object fails; a dict has no attribute \<^verbatim>\<open>base64\<close>; an empty
  \<^verbatim>\<open>base64\<close> string is falsy.
\<close>

fun select_image_data :: "externals \<Rightarrow> bool \<Rightarrow> result \<Rightarrow> error + pyobj option" where
  "select_image_data ext True (DictResult h) = Inr (Some (image h))"
| "select_image_data ext True (NativeResult b) = Inl TypeError"
| "select_image_data ext False (DictResult h) = Inr None"
| "select_image_data ext False (NativeResult None) = Inr None"
| "select_image_data ext False (NativeResult (Some s)) =
     (if s = [] then Inr None
      else (case b64decode ext s of
              None \<Rightarrow> Inl BinasciiError
            | Some data \<Rightarrow> Inr (Some (PyBytes data))))"

text \<open>
  \<^verbatim>\<open>Image.open(BytesIO(image_data))\<close>: the bytes when an image can be read from them.
  \<^verbatim>\<open>BytesIO\<close> accepts an array through its buffer, and no image is found in it.
\<close>

fun image_open :: "externals \<Rightarrow> pyobj \<Rightarrow> error + bytes" where
  "image_open ext (PyBytes data) =
     (if image_decodable ext data then Inr data else Inl UnidentifiedImageError)"
| "image_open ext (PyArray a) = Inl UnidentifiedImageError"

definition image_filename :: "externals \<Rightarrow> bytes \<Rightarrow> string" where
  "image_filename ext data = ''retrieved_'' @ md5_hexdigest ext data @ ''.png''"

definition image_path :: "externals \<Rightarrow> string \<Rightarrow> bytes \<Rightarrow> string" where
  "image_path ext session_id data =
     os_path_join (os_path_join ''static'' [''images'', session_id]) [image_filename ext data]"

definition relative_path :: "externals \<Rightarrow> string \<Rightarrow> bytes \<Rightarrow> string" where
  "relative_path ext session_id data =
     os_path_join ''images'' [session_id, image_filename ext data]"

text \<open>Lines 85 to 89: the file is written only when no file of that name exists.\<close>

definition save_if_absent ::
  "externals \<Rightarrow> string \<Rightarrow> bytes \<Rightarrow> filesystem \<Rightarrow> error option \<times> filesystem" where
  "save_if_absent ext session_id data fs =
     (if image_path ext session_id data \<notin> files fs
      then image_save ext (image_path ext session_id data) data fs else (None, fs))"

text \<open>
  The loop of \<^verbatim>\<open>process_results\<close>. Nothing in the loop catches an exception: the first
  result that raises ends the call, and the files written so far stay. The path is
  appended after the file has been written or found.
\<close>

fun process_loop ::
  "externals \<Rightarrow> bool \<Rightarrow> string \<Rightarrow> result list \<Rightarrow> string list \<Rightarrow> filesystem
   \<Rightarrow> (error + string list) \<times> filesystem" where
  "process_loop ext disk session_id [] images fs = (Inr images, fs)"
| "process_loop ext disk session_id (r # rs) images fs =
     (case select_image_data ext disk r of
        Inl e \<Rightarrow> (Inl e, fs)
      | Inr None \<Rightarrow> process_loop ext disk session_id rs images fs
      | Inr (Some image_data) \<Rightarrow>
          (case image_open ext image_data of
             Inl e \<Rightarrow> (Inl e, fs)
           | Inr data \<Rightarrow>
               (case save_if_absent ext session_id data fs of
                  (Some e, fs') \<Rightarrow> (Inl e, fs')
                | (None, fs') \<Rightarrow>
                    process_loop ext disk session_id rs
                      (images @ [relative_path ext session_id data]) fs')))"

definition process_results ::
  "externals \<Rightarrow> result list \<Rightarrow> rag \<Rightarrow> string \<Rightarrow> filesystem
   \<Rightarrow> (error + string list) \<times> filesystem" where
  "process_results ext results RAG session_id fs =
     process_loop ext (disk_mode RAG) session_id results []
       (makedirs (os_path_join ''static'' [''images'', session_id]) fs)"

section \<open>models/retriever.py: the entry point\<close>

text \<open>
  The body of the \<^verbatim>\<open>try\<close> block, then the two handlers. The handler for
  \<^verbatim>\<open>AttributeError\<close> runs the native search and the materializer outside any \<^verbatim>\<open>try\<close>: what
  they raise reaches the caller. Every other exception gives the empty list.
\<close>

definition primary_path ::
  "externals \<Rightarrow> rag \<Rightarrow> string \<Rightarrow> string \<Rightarrow> int \<Rightarrow> filesystem
   \<Rightarrow> (error + string list) \<times> filesystem" where
  "primary_path ext RAG query session_id k fs =
     (if disk_mode RAG then
        (case retrieve_from_disk ext RAG query k of
           Inl e \<Rightarrow> (Inl e, fs)
         | Inr results \<Rightarrow> process_results ext (map DictResult results) RAG session_id fs)
      else
        (case search RAG query k of
           Inl e \<Rightarrow> (Inl e, fs)
         | Inr results \<Rightarrow> process_results ext results RAG session_id fs))"

definition fallback_path ::
  "externals \<Rightarrow> rag \<Rightarrow> string \<Rightarrow> string \<Rightarrow> int \<Rightarrow> filesystem
   \<Rightarrow> (error + string list) \<times> filesystem" where
  "fallback_path ext RAG query session_id k fs =
     (case search RAG query k of
        Inl e \<Rightarrow> (Inl e, fs)
      | Inr results \<Rightarrow> process_results ext results RAG session_id fs)"

definition retrieve_documents ::
  "externals \<Rightarrow> rag \<Rightarrow> string \<Rightarrow> string \<Rightarrow> int \<Rightarrow> filesystem
   \<Rightarrow> (error + string list) \<times> filesystem" where
  "retrieve_documents ext RAG query session_id k fs =
     (case primary_path ext RAG query session_id k fs of
        (Inr images, fs') \<Rightarrow> (Inr images, fs')
      | (Inl AttributeError, fs') \<Rightarrow> fallback_path ext RAG query session_id k fs'
      | (Inl e, fs') \<Rightarrow> (Inr [], fs'))"

section \<open>models/indexer.py: indexing a folder\<close>

text \<open>
  What \<^verbatim>\<open>index_documents\<close> calls outside this repository: the converter (\<open>None\<close> when it
  returns), the loader of the encoder (which returns a model or \<^verbatim>\<open>None\<close>), the store found
  at a cache directory, the listing of the folder, and the encoder's page extraction
  (images and embeddings of one document).
\<close>

record environment =
  convert_docs_to_pdfs :: "string \<Rightarrow> error option"
  from_pretrained :: "string \<Rightarrow> error + rag option"
  open_cache :: "string option \<Rightarrow> cache"
  listdir :: "string \<Rightarrow> error + string list"
  index_document :: "string \<Rightarrow> error + (pyobj list \<times> pyobj list)"

text \<open>
  A local variable of a Python function is unbound until its first assignment, and
  reading it before raises \<^verbatim>\<open>UnboundLocalError\<close>.
\<close>

definition read_local :: "'a option \<Rightarrow> error + 'a" where
  "read_local v = (case v of None \<Rightarrow> Inl UnboundLocalError | Some x \<Rightarrow> Inr x)"

text \<open>Lines 71 to 74: the pages of one file, numbered from the given index.\<close>

fun store_pages :: "cache \<Rightarrow> string \<Rightarrow> nat \<Rightarrow> (pyobj \<times> pyobj) list \<Rightarrow> cache" where
  "store_pages dc file i [] = dc"
| "store_pages dc file i ((img, embedding) # rest) =
     store_pages
       (store_embedding (store_image dc (file @ ''_'' @ str_nat i) img)
          (file @ ''_'' @ str_nat i) embedding)
       file (Suc i) rest"

text \<open>
  Lines 66 to 74: the loop over the folder. No handler surrounds the encoder call. The
  result is the exception that ended the loop, if any, and the store as the loop left it.
\<close>

fun index_files ::
  "environment \<Rightarrow> string \<Rightarrow> string list \<Rightarrow> cache \<Rightarrow> error option \<times> cache" where
  "index_files env folder_path [] dc = (None, dc)"
| "index_files env folder_path (file # rest) dc =
     (if endswith file ''.pdf'' then
        (case index_document env (os_path_join folder_path [file]) of
           Inl e \<Rightarrow> (Some e, dc)
         | Inr (images, embeddings) \<Rightarrow>
             index_files env folder_path rest (store_pages dc file 0 (zip images embeddings)))
      else index_files env folder_path rest dc)"

text \<open>
  \<^verbatim>\<open>index_documents\<close>. The handler at the end logs and re-raises, so an exception leaves
  the function as it was raised. The local variable \<^verbatim>\<open>disk_cache\<close> is assigned at line 63
  only; line 53 reads it, when it is still unbound (\<open>None\<close> below). Setting an attribute on
  \<^verbatim>\<open>None\<close> raises \<^verbatim>\<open>AttributeError\<close>, so the test of line 58 is never true.
\<close>

definition index_documents ::
  "environment \<Rightarrow> string \<Rightarrow> string \<Rightarrow> string option \<Rightarrow> string \<Rightarrow> error + rag" where
  "index_documents env folder_path index_name index_path indexer_model =
     (case convert_docs_to_pdfs env folder_path of
        Some e \<Rightarrow> Inl e
      | None \<Rightarrow>
          (case from_pretrained env indexer_model of
             Inl e \<Rightarrow> Inl e
           | Inr None \<Rightarrow> Inl AttributeError
           | Inr (Some RAG) \<Rightarrow>
               (case read_local (None :: cache option) of
                  Inl e \<Rightarrow> Inl e
                | Inr unbound_cache \<Rightarrow>
                    (case listdir env folder_path of
                       Inl e \<Rightarrow> Inl e
                     | Inr listing \<Rightarrow>
                         (case index_files env folder_path listing (open_cache env index_path) of
                            (Some e, dc) \<Rightarrow> Inl e
                          | (None, dc) \<Rightarrow>
                              Inr (RAG\<lparr>use_disk_storage := Some True,
                                       disk_cache := Some dc\<rparr>))))))"

section \<open>The order of the results\<close>

text \<open>
  One hit ranks before another when its similarity is greater, or when the similarities
  are equal and its key is smaller in the lexical order.
\<close>

definition ranked_before :: "hit \<Rightarrow> hit \<Rightarrow> bool" where
  "ranked_before a b =
     (np_lt (similarity b) (similarity a) \<or> (similarity a = similarity b \<and> key a < key b))"

section \<open>Concrete inputs\<close>

text \<open>
  A model object without disk storage, and an environment in which the converter and the
  loader succeed, the folder holds two PDF files, and the encoder cannot parse the first.
\<close>

definition rag0 :: rag where
  "rag0 = \<lparr>use_disk_storage = None, disk_cache = None,
           encode_query = (\<lambda>q. Inl AttributeError), search = (\<lambda>q k. Inr [])\<rparr>"

definition env_ok :: environment where
  "env_ok = \<lparr>convert_docs_to_pdfs = (\<lambda>p. None),
            from_pretrained = (\<lambda>m. Inr (Some rag0)),
            open_cache = (\<lambda>p. []),
            listdir = (\<lambda>p. Inr [''bad.pdf'', ''good.pdf'']),
            index_document = (\<lambda>p. if p = ''docs/bad.pdf'' then Inl (ExternalError 1)
                                   else Inr ([PyBytes ''G''], [PyArray [1, 0]]))\<rparr>"

text \<open>The same environment with an encoder that parses every file.\<close>

definition env_all_parse :: environment where
  "env_all_parse =
     env_ok\<lparr>index_document := (\<lambda>p. Inr ([PyBytes ''G''], [PyArray [1, 0]]))\<rparr>"

text \<open>
  A disk-backed model object over a given store: the query encoder returns the unit vector
  \<open>[1, 0]\<close> and the native search raises.
\<close>

definition rag_disk :: "cache \<Rightarrow> rag" where
  "rag_disk c = \<lparr>use_disk_storage = Some True, disk_cache = Some c,
                 encode_query = (\<lambda>q. Inr [1, 0]), search = (\<lambda>q k. Inl (ExternalError 0))\<rparr>"

text \<open>
  Stores written by the indexing loop. In \<open>cache_ties\<close> two pages have the same embedding,
  and the file that sorts second is indexed first. In \<open>cache_zero\<close> the middle page has the
  zero vector as its embedding.
\<close>

definition cache_ties :: cache where
  "cache_ties =
     store_pages
       (store_pages (store_pages [] ''b.pdf'' 0 [(PyBytes ''B'', PyArray [1, 0])])
          ''a.pdf'' 0 [(PyBytes ''A'', PyArray [1, 0])])
       ''c.pdf'' 0 [(PyBytes ''C'', PyArray [0, 1])]"

definition cache_zero :: cache where
  "cache_zero =
     store_pages
       (store_pages (store_pages [] ''a.pdf'' 0 [(PyBytes ''A'', PyArray [0, 1])])
          ''b.pdf'' 0 [(PyBytes ''B'', PyArray [0, 0])])
       ''c.pdf'' 0 [(PyBytes ''C'', PyArray [1, 0])]"

text \<open>
  One complete pair, then an embedding without its image (\<open>cache_orphan\<close>) or a pair whose
  image blob does not unpickle (\<open>cache_corrupt\<close>).
\<close>

definition cache_orphan :: cache where
  "cache_orphan =
     store_embedding (store_pages [] ''a.pdf'' 0 [(PyBytes ''A'', PyArray [1, 0])])
       ''b.pdf_0'' (PyArray [0, 1])"


text \<open>
  A file whose name contains \<^verbatim>\<open>_embedding\<close>, alone (\<open>cache_named\<close>) and beside a file whose
  name is the same with \<^verbatim>\<open>_image\<close> in its place (\<open>cache_named_twice\<close>).
\<close>

definition cache_named :: cache where
  "cache_named = store_pages [] ''a_embedding.pdf'' 0 [(PyBytes ''A'', PyArray [1, 0])]"

definition cache_named_twice :: cache where
  "cache_named_twice =
     store_pages cache_named ''a_image.pdf'' 0 [(PyBytes ''B'', PyArray [0, 1])]"

text \<open>
  Stand-ins for the libraries. The dot product and the norm are computed exactly, as
  \<^verbatim>\<open>float64\<close> arithmetic does on the vectors of the stores above, whose entries are 0 and 1.
  The digest of a byte string is the string itself, every byte string but \<open>''X''\<close> is an
  image, the image \<open>''Y''\<close> cannot be written as PNG (no file is left), and every string
  decodes.
\<close>

definition exact_dot :: "real list \<Rightarrow> real list \<Rightarrow> error + npfloat" where
  "exact_dot a b =
     (if length a \<noteq> length b then Inl ValueError else Inr (Finite (sum_list (map2 (*) a b))))"

definition exact_norm :: "real list \<Rightarrow> npfloat" where
  "exact_norm a = Finite (sqrt (sum_list (map (\<lambda>x. \<bar>x\<bar> ^ 2) a)))"

definition ext0 :: externals where
  "ext0 = \<lparr>np_dot = exact_dot, np_norm = exact_norm, float_round = Finite,
           md5_hexdigest = (\<lambda>data. data), image_decodable = (\<lambda>data. data \<noteq> ''X''),
           png_save = (\<lambda>data. if data = ''Y'' then SaveFailed False else Saved),
           b64decode = (\<lambda>s. Some s)\<rparr>"

definition fs0 :: filesystem where
  "fs0 = \<lparr>dirs = {}, files = {}, saves = []\<rparr>"


text \<open>
  Model objects for the entry point: one whose query encoder is missing and whose native
  search raises, and a native one whose search raises \<^verbatim>\<open>ValueError\<close>.
\<close>

definition rag_no_encoder :: rag where
  "rag_no_encoder = \<lparr>use_disk_storage = Some True, disk_cache = Some [],
                     encode_query = (\<lambda>q. Inl AttributeError),
                     search = (\<lambda>q k. Inl (ExternalError 0))\<rparr>"

definition rag_native_fails :: rag where
  "rag_native_fails = \<lparr>use_disk_storage = None, disk_cache = None,
                       encode_query = (\<lambda>q. Inl AttributeError),
                       search = (\<lambda>q k. Inl ValueError)\<rparr>"

definition rag_native :: rag where
  "rag_native = \<lparr>use_disk_storage = None, disk_cache = None,
                 encode_query = (\<lambda>q. Inl AttributeError),
                 search = (\<lambda>q k. Inr [NativeResult (Some ''A''), NativeResult None])\<rparr>"

section \<open>Round trip through the cache\<close>

lemma cache_get_set_same: "cache_get (cache_set c k v) k = Some v"
  by (simp add: cache_get_def cache_set_def)

lemma map_of_filter_other: "k' \<noteq> k \<Longrightarrow> map_of (filter (\<lambda>row. fst row \<noteq> k) c) k' = map_of c k'"
  by (induction c) auto

lemma cache_get_set_other: "k' \<noteq> k \<Longrightarrow> cache_get (cache_set c k v) k' = cache_get c k'"
  by (simp add: cache_get_def cache_set_def map_of_filter_other)

lemma sibling_keys_differ: "base @ ''_image'' \<noteq> base' @ ''_embedding''"
proof
  assume "base @ ''_image'' = base' @ ''_embedding''"
  then have "last (base @ ''_image'') = last (base' @ ''_embedding'')" by simp
  then show False by simp
qed

text \<open>
  C9. Reading a key back after writing it returns the value written: \<open>get_image\<close> after
  \<open>store_image\<close> and \<open>get_embedding\<close> after \<open>store_embedding\<close>, for every key, every value and
  every prior content of the store; writing the sibling in between changes nothing.
\<close>

theorem store_get_roundtrip:
  "get_image (store_image c base v) base = Inr v
   \<and> get_embedding (store_embedding c base e) base = Inr e
   \<and> get_image (store_embedding (store_image c base v) base e) base = Inr v
   \<and> get_embedding (store_embedding (store_image c base v) base e) base = Inr e"
  by (simp add: get_image_def get_embedding_def store_image_def store_embedding_def
      pickle_dumps_def cache_get_set_same cache_get_set_other sibling_keys_differ)

section \<open>Cosine similarity at zero norm\<close>

lemma np_true_divide_zero: "\<forall>r. np_true_divide ext x (Finite 0) \<noteq> Finite r"
  by (cases x) (auto simp: signed_inf_def)

lemma np_multiply_zero_left: "\<forall>r. r \<noteq> 0 \<longrightarrow> np_multiply ext (Finite 0) y \<noteq> Finite r"
  by (cases y) auto

lemma np_multiply_zero_right: "\<forall>r. r \<noteq> 0 \<longrightarrow> np_multiply ext x (Finite 0) \<noteq> Finite r"
  by (cases x) auto

lemma np_true_divide_not_finite:
  assumes "\<forall>r. r \<noteq> 0 \<longrightarrow> p \<noteq> Finite r" and "\<forall>s. p \<noteq> signed_inf s"
  shows "np_true_divide ext x p \<noteq> Finite r"
  using assms np_true_divide_zero [of ext x]
  by (cases p; cases x) (auto simp: signed_inf_def split: if_splits)

lemma np_multiply_zero_not_inf:
  "np_multiply ext (Finite 0) y \<noteq> signed_inf s" "np_multiply ext x (Finite 0) \<noteq> signed_inf s"
  by (cases y; simp add: signed_inf_def) (cases x; simp add: signed_inf_def)

text \<open>
  C3, as the code has it. When the norm of either vector is computed as zero and the dot
  product does not raise, \<open>compute_similarity\<close> returns \<open>NaN\<close> or an infinity, never \<open>0\<close> nor
  any other finite number; it returns \<open>NaN\<close> when the dot product is zero too, as it is for
  a zero vector.
\<close>

theorem compute_similarity_zero_norm:
  assumes "np_dot ext q d = Inr x"
    and "np_norm ext q = Finite 0 \<or> np_norm ext d = Finite 0"
  shows "\<exists>y. compute_similarity ext q d = Inr y \<and> (\<forall>r. y \<noteq> Finite r)
           \<and> (x = Finite 0 \<longrightarrow> y = NaN)"
proof -
  let ?p = "np_multiply ext (np_norm ext q) (np_norm ext d)"
  have nonzero: "\<forall>r. r \<noteq> 0 \<longrightarrow> ?p \<noteq> Finite r" and noinf: "\<forall>s. ?p \<noteq> signed_inf s"
    using assms(2) np_multiply_zero_left [of ext "np_norm ext d"]
      np_multiply_zero_right [of ext "np_norm ext q"]
      np_multiply_zero_not_inf [of ext "np_norm ext d"]
      np_multiply_zero_not_inf [of ext "np_norm ext q"]
    by auto
  have sim: "compute_similarity ext q d = Inr (np_true_divide ext x ?p)"
    using assms(1) by (simp add: compute_similarity_def)
  have "\<forall>r. np_true_divide ext x ?p \<noteq> Finite r"
    using np_true_divide_not_finite [OF nonzero noinf] by blast
  moreover have "np_true_divide ext (Finite 0) ?p = NaN"
    using nonzero noinf by (cases ?p) (auto simp: signed_inf_def split: if_splits)
  ultimately show ?thesis using sim by auto
qed

lemmas numpy_eval = compute_similarity_def ext0_def exact_dot_def exact_norm_def

theorem compute_similarity_zero_norm_witness:
  "np_dot ext0 [0, 0] [1, 0] = Inr (Finite 0) \<and> np_norm ext0 [0, 0] = Finite 0
   \<and> (\<exists>y. compute_similarity ext0 [0, 0] [1, 0] = Inr y \<and> (\<forall>r. y \<noteq> Finite r) \<and> y = NaN)"
  using compute_similarity_zero_norm [of ext0 "[0, 0]" "[1, 0]" "Finite 0"]
  by (simp add: ext0_def exact_dot_def exact_norm_def)

text \<open>
  The claim C3 fails for the zero query vector against the unit vector: the norm is zero
  and the result is \<open>NaN\<close>, not \<open>0\<close>.
\<close>

theorem zero_norm_counterexample:
  "np_norm ext0 [0, 0] = Finite 0 \<and> compute_similarity ext0 [0, 0] [1, 0] = Inr NaN
   \<and> compute_similarity ext0 [0, 0] [1, 0] \<noteq> Inr (Finite 0)"
  by (simp add: numpy_eval)

section \<open>Indexing a folder\<close>

text \<open>
  C2. For every folder, index name, index path and model name, and whatever the
  converter, the loader, the folder listing and the encoder do, \<open>index_documents\<close> raises
  and returns no handle. Whenever the converter and the loader return (a model), the
  exception is the unbound-local error of line 53.
\<close>

theorem index_documents_raises:
  "(\<exists>e. index_documents env folder_path index_name index_path indexer_model = Inl e)
   \<and> (convert_docs_to_pdfs env folder_path = None \<longrightarrow>
        from_pretrained env indexer_model = Inr (Some RAG) \<longrightarrow>
        index_documents env folder_path index_name index_path indexer_model
          = Inl UnboundLocalError)"
  by (auto simp: index_documents_def read_local_def split: option.splits sum.splits)

theorem index_documents_raises_witness:
  "(\<exists>e. index_documents env_ok ''docs'' ''document_index'' None ''vidore/colpali'' = Inl e)
   \<and> convert_docs_to_pdfs env_ok ''docs'' = None
   \<and> from_pretrained env_ok ''vidore/colpali'' = Inr (Some rag0)
   \<and> index_documents env_ok ''docs'' ''document_index'' None ''vidore/colpali''
       = Inl UnboundLocalError"
  using index_documents_raises
    [of env_ok "''docs''" "''document_index''" None "''vidore/colpali''" rag0]
  by (simp add: env_ok_def)

text \<open>
  C8 at a folder of two PDF files, with a loader that returns a model. Whether the
  encoder parses every file or fails on the first, \<open>index_documents\<close> raises the
  unbound-local error of line 53: the loop over the files is never reached, and the
  folder's indexing is given up although the encoder was initialized.
\<close>

theorem indexing_aborts_before_the_files:
  "from_pretrained env_all_parse ''vidore/colpali'' = Inr (Some rag0)
   \<and> listdir env_all_parse ''docs'' = Inr [''bad.pdf'', ''good.pdf'']
   \<and> index_documents env_all_parse ''docs'' ''document_index'' None ''vidore/colpali''
       = Inl UnboundLocalError
   \<and> from_pretrained env_ok ''vidore/colpali'' = Inr (Some rag0)
   \<and> index_documents env_ok ''docs'' ''document_index'' None ''vidore/colpali''
       = Inl UnboundLocalError"
  by (simp add: env_ok_def env_all_parse_def index_documents_def read_local_def)

section \<open>Sorting and truncation\<close>

lemma np_lt_trans: "np_lt a b \<Longrightarrow> np_lt b c \<Longrightarrow> np_lt a c"
  by (cases a; cases b; cases c) auto

lemma np_lt_total: "a \<noteq> NaN \<Longrightarrow> b \<noteq> NaN \<Longrightarrow> np_lt a b \<or> a = b \<or> np_lt b a"
  by (cases a; cases b) auto

lemma np_lt_le_trans: "np_lt a b \<Longrightarrow> \<not> np_lt c b \<Longrightarrow> b \<noteq> NaN \<Longrightarrow> c \<noteq> NaN \<Longrightarrow> np_lt a c"
  by (cases a; cases b; cases c) auto

lemma ranked_before_trans:
  "ranked_before a b \<Longrightarrow> ranked_before b c \<Longrightarrow> ranked_before a c"
  unfolding ranked_before_def by (auto intro: np_lt_trans)

lemma ranked_before_not_lt: "ranked_before b a \<Longrightarrow> \<not> np_lt (similarity b) (similarity a)"
  unfolding ranked_before_def by (cases "similarity a"; cases "similarity b") auto

lemma set_take_drop: "set (take n xs) \<union> set (drop n xs) = set xs"
  by (metis append_take_drop_id set_append)

lemma length_binarysort: "length (binarysort front rest) = length front + length rest"
  by (induction rest arbitrary: front) auto

lemma set_binarysort: "set (binarysort front rest) = set front \<union> set rest"
proof (induction rest arbitrary: front)
  case Nil
  then show ?case by simp
next
  case (Cons pivot rest)
  have "set (take n front @ pivot # drop n front) = insert pivot (set front)" for n
    using set_take_drop [of n front] by auto
  with Cons show ?case by simp
qed

lemma length_take_drop: "length (take n xs) + length (drop n xs) = length xs"
  by (metis append_take_drop_id length_append)

lemma length_sort_ascending: "length (sort_ascending xs) = length xs"
proof -
  obtain n d where "count_run xs = (n, d)" by (cases "count_run xs")
  then show ?thesis
    using length_take_drop [of n xs]
    by (simp add: sort_ascending_def length_binarysort del: length_take length_drop)
qed

lemma set_sort_ascending: "set (sort_ascending xs) = set xs"
proof -
  obtain n d where "count_run xs = (n, d)" by (cases "count_run xs")
  then show ?thesis
    using set_take_drop [of n xs]
    by (simp add: sort_ascending_def set_binarysort)
qed

lemma length_sort_reverse: "length (sort_reverse xs) = length xs"
  by (simp add: sort_reverse_def length_sort_ascending)

lemma set_sort_reverse: "set (sort_reverse xs) = set xs"
  by (simp add: sort_reverse_def set_sort_ascending)

lemma binary_search_spec:
  assumes "sorted_wrt (\<lambda>a b. \<not> np_lt (similarity b) (similarity a)) s"
    and "\<forall>x\<in>set s. similarity x \<noteq> NaN"
    and "l \<le> r" and "r \<le> length s"
    and "\<forall>i<l. \<not> np_lt (similarity pivot) (similarity (s ! i))"
    and "\<forall>i. r \<le> i \<and> i < length s \<longrightarrow> np_lt (similarity pivot) (similarity (s ! i))"
  shows "binary_search pivot s l r \<le> length s
         \<and> (\<forall>i<binary_search pivot s l r. \<not> np_lt (similarity pivot) (similarity (s ! i)))
         \<and> (\<forall>i. binary_search pivot s l r \<le> i \<and> i < length s
                \<longrightarrow> np_lt (similarity pivot) (similarity (s ! i)))"
  using assms
proof (induction pivot s l r rule: binary_search.induct)
  case (1 pivot a l r)
  show ?case
  proof (cases "l < r")
    case False
    with "1.prems" have "l = r" by simp
    moreover have "binary_search pivot a l r = l"
      using False by (simp add: binary_search.simps)
    ultimately show ?thesis using "1.prems" by simp
  next
    case True
    let ?m = "l + (r - l) div 2"
    from True have m: "l \<le> ?m" "?m < r" by auto
    with "1.prems" have mlen: "?m < length a" by simp
    have nth_nan: "similarity (a ! i) \<noteq> NaN" if "i < length a" for i
      using "1.prems"(2) that by simp
    have mono: "\<not> np_lt (similarity (a ! j)) (similarity (a ! i))"
      if "i < j" "j < length a" for i j
      using "1.prems"(1) that by (simp add: sorted_wrt_iff_nth_less)
    show ?thesis
    proof (cases "np_lt (similarity pivot) (similarity (a ! ?m))")
      case lt: True
      have eq: "binary_search pivot a l r = binary_search pivot a l ?m"
        using True lt by (subst binary_search.simps) simp
      have above: "\<forall>i. ?m \<le> i \<and> i < length a
                     \<longrightarrow> np_lt (similarity pivot) (similarity (a ! i))"
      proof (intro allI impI)
        fix i assume i: "?m \<le> i \<and> i < length a"
        show "np_lt (similarity pivot) (similarity (a ! i))"
        proof (cases "i = ?m")
          case True
          with lt show ?thesis by simp
        next
          case False
          with i have "?m < i" by simp
          with i have "\<not> np_lt (similarity (a ! i)) (similarity (a ! ?m))"
            using mono by simp
          with lt show ?thesis
            using np_lt_le_trans nth_nan i mlen by blast
        qed
      qed
      show ?thesis unfolding eq
        using "1.IH"(1) [OF True lt "1.prems"(1,2) m(1)] mlen "1.prems"(5) above
        by simp
    next
      case ge: False
      have eq: "binary_search pivot a l r = binary_search pivot a (?m + 1) r"
        using True ge by (subst binary_search.simps) simp
      have below: "\<forall>i<?m + 1. \<not> np_lt (similarity pivot) (similarity (a ! i))"
      proof (intro allI impI)
        fix i assume i: "i < ?m + 1"
        show "\<not> np_lt (similarity pivot) (similarity (a ! i))"
        proof (cases "i = ?m")
          case True
          with ge show ?thesis by simp
        next
          case False
          with i have "i < ?m" by simp
          then have "\<not> np_lt (similarity (a ! ?m)) (similarity (a ! i))"
            using mono mlen by simp
          with ge show ?thesis
            using np_lt_le_trans nth_nan mlen \<open>i < ?m\<close>
            by (metis less_trans)
        qed
      qed
      from m have "?m + 1 \<le> r" by simp
      show ?thesis unfolding eq
        using "1.IH"(2) [OF True ge "1.prems"(1,2) \<open>?m + 1 \<le> r\<close> "1.prems"(4)] below
          "1.prems"(6)
        by simp
    qed
  qed
qed

lemma insert_sorted:
  assumes s: "sorted_wrt (\<lambda>a b. ranked_before b a) s"
    and nan: "\<forall>x\<in>set s. similarity x \<noteq> NaN" "similarity pivot \<noteq> NaN"
    and keys: "\<forall>x\<in>set s. key pivot < key x"
  shows "sorted_wrt (\<lambda>a b. ranked_before b a)
           (take (binary_search pivot s 0 (length s)) s
              @ pivot # drop (binary_search pivot s 0 (length s)) s)"
proof -
  let ?j = "binary_search pivot s 0 (length s)"
  have weak: "sorted_wrt (\<lambda>a b. \<not> np_lt (similarity b) (similarity a)) s"
    using s ranked_before_not_lt by (rule sorted_wrt_mono_rel [rotated])
  have "binary_search pivot s 0 (length s) \<le> length s
     \<and> (\<forall>i<binary_search pivot s 0 (length s).
            \<not> np_lt (similarity pivot) (similarity (s ! i)))
     \<and> (\<forall>i. binary_search pivot s 0 (length s) \<le> i \<and> i < length s
            \<longrightarrow> np_lt (similarity pivot) (similarity (s ! i)))"
  proof (rule binary_search_spec [OF weak nan(1)])
    show "0 \<le> length s" by simp
    show "length s \<le> length s" by simp
    show "\<forall>i<0. \<not> np_lt (similarity pivot) (similarity (s ! i))" by simp
    show "\<forall>i. length s \<le> i \<and> i < length s
            \<longrightarrow> np_lt (similarity pivot) (similarity (s ! i))"
      by auto
  qed
  then have spec: "?j \<le> length s"
    "\<forall>i<?j. \<not> np_lt (similarity pivot) (similarity (s ! i))"
    "\<forall>i. ?j \<le> i \<and> i < length s \<longrightarrow> np_lt (similarity pivot) (similarity (s ! i))"
    by blast+
  have before: "ranked_before pivot x" if "x \<in> set (take ?j s)" for x
  proof -
    from that obtain i where "i < length (take ?j s)" "take ?j s ! i = x"
      by (metis in_set_conv_nth)
    then have i: "i < ?j" "i < length s" "x = s ! i" by simp_all
    then have "\<not> np_lt (similarity pivot) (similarity x)" using spec(2) by simp
    moreover have "x \<in> set s" using i by simp
    ultimately show ?thesis
      using np_lt_total [of "similarity x" "similarity pivot"] nan keys
      by (auto simp: ranked_before_def)
  qed
  have after: "ranked_before y pivot" if "y \<in> set (drop ?j s)" for y
  proof -
    from that obtain i where "i < length (drop ?j s)" "drop ?j s ! i = y"
      by (metis in_set_conv_nth)
    then have i: "?j + i < length s" "y = s ! (?j + i)" by auto
    then have "np_lt (similarity pivot) (similarity y)" using spec(3) by simp
    then show ?thesis by (simp add: ranked_before_def)
  qed
  have split: "sorted_wrt (\<lambda>a b. ranked_before b a) (take ?j s @ drop ?j s)"
    using s by simp
  from split [unfolded sorted_wrt_append]
  have a: "sorted_wrt (\<lambda>a b. ranked_before b a) (take ?j s)"
    and b: "sorted_wrt (\<lambda>a b. ranked_before b a) (drop ?j s)"
    and c: "\<forall>x\<in>set (take ?j s). \<forall>y\<in>set (drop ?j s). ranked_before y x"
    by blast+
  show ?thesis
    unfolding sorted_wrt_append using a b c before after by simp
qed

lemma binarysort_sorted:
  assumes "sorted_wrt (\<lambda>a b. ranked_before b a) front"
    and "\<forall>x\<in>set front \<union> set rest. similarity x \<noteq> NaN"
    and "sorted_wrt (\<lambda>a b. key b < key a) rest"
    and "\<forall>x\<in>set front. \<forall>p\<in>set rest. key p < key x"
  shows "sorted_wrt (\<lambda>a b. ranked_before b a) (binarysort front rest)"
  using assms
proof (induction rest arbitrary: front)
  case Nil
  then show ?case by simp
next
  case (Cons pivot rest)
  let ?j = "binary_search pivot front 0 (length front)"
  let ?front = "take ?j front @ pivot # drop ?j front"
  have set_front: "set ?front = insert pivot (set front)"
    using set_take_drop [of ?j front] by auto
  have "sorted_wrt (\<lambda>a b. ranked_before b a) ?front"
    using Cons.prems by (intro insert_sorted) auto
  moreover have "\<forall>x\<in>set ?front \<union> set rest. similarity x \<noteq> NaN"
    using Cons.prems(2) set_front by auto
  moreover have "sorted_wrt (\<lambda>a b. key b < key a) rest"
    using Cons.prems(3) by simp
  moreover have "\<forall>x\<in>set ?front. \<forall>p\<in>set rest. key p < key x"
    using Cons.prems(3,4) set_front by auto
  ultimately have "sorted_wrt (\<lambda>a b. ranked_before b a) (binarysort ?front rest)"
    by (rule Cons.IH)
  then show ?case by simp
qed

lemma ascending_run_sorted:
  assumes "sorted_wrt (\<lambda>a b. key b < key a) (prev # xs)"
    and "\<forall>x\<in>set (prev # xs). similarity x \<noteq> NaN"
  shows "sorted_wrt (\<lambda>a b. ranked_before b a) (prev # take (ascending_run prev xs) xs)"
  using assms
proof (induction xs arbitrary: prev)
  case Nil
  then show ?case by simp
next
  case (Cons x xs)
  show ?case
  proof (cases "np_lt (similarity x) (similarity prev)")
    case True
    then show ?thesis by simp
  next
    case False
    have ih: "sorted_wrt (\<lambda>a b. ranked_before b a) (x # take (ascending_run x xs) xs)"
      using Cons.prems by (intro Cons.IH) auto
    have px: "ranked_before x prev"
      using False Cons.prems np_lt_total [of "similarity prev" "similarity x"]
      by (auto simp: ranked_before_def)
    have "\<forall>z\<in>set (take (ascending_run x xs) xs). ranked_before z prev"
      using ih px by (auto intro: ranked_before_trans)
    with ih px False show ?thesis by simp
  qed
qed

lemma descending_run_sorted:
  "sorted_wrt (\<lambda>a b. np_lt (similarity b) (similarity a))
     (prev # take (descending_run prev xs) xs)"
proof (induction xs arbitrary: prev)
  case Nil
  then show ?case by simp
next
  case (Cons x xs)
  show ?case
  proof (cases "np_lt (similarity x) (similarity prev)")
    case False
    then show ?thesis by simp
  next
    case True
    have ih: "sorted_wrt (\<lambda>a b. np_lt (similarity b) (similarity a))
                (x # take (descending_run x xs) xs)"
      by (rule Cons.IH)
    then have "\<forall>z\<in>set (take (descending_run x xs) xs). np_lt (similarity z) (similarity prev)"
      using True by (auto intro: np_lt_trans)
    with ih True show ?thesis by simp
  qed
qed

lemma count_run_sorted:
  assumes "sorted_wrt (\<lambda>a b. key b < key a) ys" and "\<forall>x\<in>set ys. similarity x \<noteq> NaN"
    and "count_run ys = (n, d)"
  shows "sorted_wrt (\<lambda>a b. ranked_before b a) (if d then rev (take n ys) else take n ys)"
proof (cases ys rule: count_run.cases)
  case 1
  with assms show ?thesis by simp
next
  case (2 x)
  with assms show ?thesis by auto
next
  case (3 x y zs)
  show ?thesis
  proof (cases "np_lt (similarity y) (similarity x)")
    case True
    with 3 assms(3) have n: "n = 2 + descending_run y zs" and d: "d" by auto
    have run: "sorted_wrt (\<lambda>a b. np_lt (similarity b) (similarity a))
                 (y # take (descending_run y zs) zs)"
      by (rule descending_run_sorted)
    then have "\<forall>z\<in>set (take (descending_run y zs) zs). np_lt (similarity z) (similarity x)"
      using True by (auto intro: np_lt_trans)
    with run True have "sorted_wrt (\<lambda>a b. np_lt (similarity b) (similarity a))
                 (x # y # take (descending_run y zs) zs)" by simp
    then have "sorted_wrt (\<lambda>a b. ranked_before a b) (x # y # take (descending_run y zs) zs)"
      by (rule sorted_wrt_mono_rel [rotated]) (simp add: ranked_before_def)
    then have "sorted_wrt (\<lambda>a b. ranked_before b a)
                 (rev (x # y # take (descending_run y zs) zs))"
      unfolding sorted_wrt_rev .
    with 3 n d show ?thesis by simp
  next
    case False
    with 3 assms(3) have n: "n = 2 + ascending_run y zs" and d: "\<not> d" by auto
    have run: "sorted_wrt (\<lambda>a b. ranked_before b a) (y # take (ascending_run y zs) zs)"
      using assms(1,2) 3 by (intro ascending_run_sorted) auto
    have xy: "ranked_before y x"
      using False assms(1,2) 3 np_lt_total [of "similarity x" "similarity y"]
      by (auto simp: ranked_before_def)
    have "\<forall>z\<in>set (take (ascending_run y zs) zs). ranked_before z x"
      using run xy by (auto intro: ranked_before_trans)
    with run xy 3 n d show ?thesis by simp
  qed
qed

lemma sort_ascending_sorted:
  assumes keys: "sorted_wrt (\<lambda>a b. key b < key a) ys"
    and nan: "\<forall>x\<in>set ys. similarity x \<noteq> NaN"
  shows "sorted_wrt (\<lambda>a b. ranked_before b a) (sort_ascending ys)"
proof -
  obtain n d where run: "count_run ys = (n, d)" by (cases "count_run ys")
  let ?front = "if d then rev (take n ys) else take n ys"
  have front: "sorted_wrt (\<lambda>a b. ranked_before b a) ?front"
    using keys nan run by (rule count_run_sorted)
  have set_front: "set ?front = set (take n ys)" by simp
  have split: "sorted_wrt (\<lambda>a b. key b < key a) (take n ys @ drop n ys)"
    using keys by simp
  have "sorted_wrt (\<lambda>a b. ranked_before b a) (binarysort ?front (drop n ys))"
  proof (rule binarysort_sorted [OF front])
    show "\<forall>x\<in>set ?front \<union> set (drop n ys). similarity x \<noteq> NaN"
      using nan set_take_drop [of n ys] unfolding set_front by auto
    show "sorted_wrt (\<lambda>a b. key b < key a) (drop n ys)"
      using split [unfolded sorted_wrt_append] by blast
    show "\<forall>x\<in>set ?front. \<forall>p\<in>set (drop n ys). key p < key x"
      using split [unfolded sorted_wrt_append] unfolding set_front by blast
  qed
  with run show ?thesis by (cases d) (simp_all add: sort_ascending_def)
qed

lemma sorted_sort_reverse:
  assumes "sorted_wrt (\<lambda>a b. key a < key b) xs" and "\<forall>x\<in>set xs. similarity x \<noteq> NaN"
  shows "sorted_wrt ranked_before (sort_reverse xs)"
proof -
  have "sorted_wrt (\<lambda>a b. key b < key a) (rev xs)"
    using assms(1) by (simp add: sorted_wrt_rev)
  then have "sorted_wrt (\<lambda>a b. ranked_before b a) (sort_ascending (rev xs))"
    using assms(2) by (intro sort_ascending_sorted) auto
  then show ?thesis by (simp add: sort_reverse_def sorted_wrt_rev)
qed

lemma length_slice_to: "0 \<le> k \<Longrightarrow> length (slice_to k xs) = min (nat k) (length xs)"
  by (simp add: slice_to_def)

lemma sorted_wrt_slice_to: "sorted_wrt P xs \<Longrightarrow> sorted_wrt P (slice_to k xs)"
  by (simp add: slice_to_def sorted_wrt_take)

text \<open>
  The sort at a list with a \<open>NaN\<close> among four entries: the first two entries of the
  reversed list form a descending run, and the other two are put in by binary search.
\<close>

lemma sort_reverse_with_nan:
  "sort_reverse
     [\<lparr>similarity = Finite 0, image = PyBytes ''A'', key = ''a''\<rparr>,
      \<lparr>similarity = NaN, image = PyBytes ''B'', key = ''b''\<rparr>,
      \<lparr>similarity = Finite 0, image = PyBytes ''C'', key = ''c''\<rparr>,
      \<lparr>similarity = Finite 1, image = PyBytes ''D'', key = ''d''\<rparr>]
   = [\<lparr>similarity = NaN, image = PyBytes ''B'', key = ''b''\<rparr>,
      \<lparr>similarity = Finite 1, image = PyBytes ''D'', key = ''d''\<rparr>,
      \<lparr>similarity = Finite 0, image = PyBytes ''A'', key = ''a''\<rparr>,
      \<lparr>similarity = Finite 0, image = PyBytes ''C'', key = ''c''\<rparr>]"
  by (simp add: sort_reverse_def sort_ascending_def binary_search.simps)

section \<open>The scan of the keys\<close>

lemma scan_keys_acc:
  "scan_keys ext c qe ks acc =
     (case scan_keys ext c qe ks [] of Inl e \<Rightarrow> Inl e | Inr rs \<Rightarrow> Inr (acc @ rs))"
proof (induction ks arbitrary: acc)
  case Nil
  then show ?case by simp
next
  case (Cons k ks)
  show ?case
    using Cons.IH [of "acc @ [h]" for h] Cons.IH [of "[h]" for h] Cons.IH [of acc]
    by (auto split: sum.splits)
qed

lemma scan_entry_key: "scan_entry ext c qe k = Inr h \<Longrightarrow> key h = k"
  by (auto simp: scan_entry_def split: sum.splits)

lemma scan_entry_Inr:
  assumes "scan_entry ext c qe k = Inr h"
  shows "\<exists>v. cache_get c k = Some (Pickled (PyArray v))
           \<and> compute_similarity ext qe v = Inr (similarity h)
           \<and> pickle_loads (cache_get c (py_replace k ''_embedding'' ''_image'')) = Inr (image h)"
proof -
  from assms obtain emb sim img where
    emb: "pickle_loads (cache_get c k) = Inr emb"
    and sim: "similarity_of ext qe emb = Inr sim"
    and img: "pickle_loads (cache_get c (py_replace k ''_embedding'' ''_image'')) = Inr img"
    and h: "h = \<lparr>similarity = sim, image = img, key = k\<rparr>"
    by (auto simp: scan_entry_def split: sum.splits)
  from sim obtain v where v: "emb = PyArray v" by (cases emb) auto
  from emb have "cache_get c k = Some (Pickled emb)"
    by (auto elim: pickle_loads.elims)
  with v sim img h show ?thesis by simp
qed

lemma scan_keys_Inr:
  "scan_keys ext c qe ks [] = Inr rs \<Longrightarrow>
   map key rs = filter (\<lambda>k. endswith k ''_embedding'') ks
   \<and> (\<forall>h\<in>set rs. scan_entry ext c qe (key h) = Inr h)"
proof (induction ks arbitrary: rs)
  case Nil
  then show ?case by simp
next
  case (Cons k ks)
  show ?case
  proof (cases "endswith k ''_embedding''")
    case False
    with Cons show ?thesis by simp
  next
    case True
    with Cons.prems obtain h where h: "scan_entry ext c qe k = Inr h"
      and rest: "scan_keys ext c qe ks [h] = Inr rs"
      by (auto split: sum.splits)
    from rest obtain rs' where rs': "scan_keys ext c qe ks [] = Inr rs'" and rs: "rs = h # rs'"
      using scan_keys_acc [of ext c qe ks "[h]"] by (auto split: sum.splits)
    from Cons.IH [OF rs'] h True rs show ?thesis
      by (auto simp: scan_entry_key)
  qed
qed

lemma scan_keys_total:
  "\<forall>k\<in>set ks. endswith k ''_embedding'' \<longrightarrow> (\<exists>h. scan_entry ext c qe k = Inr h) \<Longrightarrow>
   \<exists>rs. scan_keys ext c qe ks acc = Inr rs"
  by (induction ks arbitrary: acc) auto


lemma iterkeys_strict: "sorted_wrt (<) (iterkeys c)"
  by (simp add: iterkeys_def strict_sorted_iff)



section \<open>The materializer\<close>







section \<open>Evaluation of the concrete inputs\<close>

lemmas store_eval = store_image_def store_embedding_def cache_set_def pickle_dumps_def
  str_nat.simps digit_char_def

lemmas search_eval = retrieve_from_disk_def iterkeys_def less_eq_char_def less_char_def
  endswith_def suffix_to_prefix scan_entry_def cache_get_def py_replace_def
  compute_similarity_def ext0_def exact_dot_def exact_norm_def signed_inf_def
  sort_reverse_def sort_ascending_def binary_search.simps slice_to_def

lemma cache_ties_rows:
  "cache_ties =
     [(''c.pdf_0_embedding'', Pickled (PyArray [0, 1])), (''c.pdf_0_image'', Pickled (PyBytes ''C'')),
      (''a.pdf_0_embedding'', Pickled (PyArray [1, 0])), (''a.pdf_0_image'', Pickled (PyBytes ''A'')),
      (''b.pdf_0_embedding'', Pickled (PyArray [1, 0])), (''b.pdf_0_image'', Pickled (PyBytes ''B''))]"
  by (simp add: cache_ties_def store_eval)

lemma cache_zero_rows:
  "cache_zero =
     [(''c.pdf_0_embedding'', Pickled (PyArray [1, 0])), (''c.pdf_0_image'', Pickled (PyBytes ''C'')),
      (''b.pdf_0_embedding'', Pickled (PyArray [0, 0])), (''b.pdf_0_image'', Pickled (PyBytes ''B'')),
      (''a.pdf_0_embedding'', Pickled (PyArray [0, 1])), (''a.pdf_0_image'', Pickled (PyBytes ''A''))]"
  by (simp add: cache_zero_def store_eval)

lemma cache_orphan_rows:
  "cache_orphan =
     [(''b.pdf_0_embedding'', Pickled (PyArray [0, 1])),
      (''a.pdf_0_embedding'', Pickled (PyArray [1, 0])), (''a.pdf_0_image'', Pickled (PyBytes ''A''))]"
  by (simp add: cache_orphan_def store_eval)


lemma cache_named_rows:
  "cache_named =
     [(''a_embedding.pdf_0_embedding'', Pickled (PyArray [1, 0])),
      (''a_embedding.pdf_0_image'', Pickled (PyBytes ''A''))]"
  by (simp add: cache_named_def store_eval)

lemma cache_named_twice_rows:
  "cache_named_twice =
     [(''a_image.pdf_0_embedding'', Pickled (PyArray [0, 1])),
      (''a_image.pdf_0_image'', Pickled (PyBytes ''B'')),
      (''a_embedding.pdf_0_embedding'', Pickled (PyArray [1, 0])),
      (''a_embedding.pdf_0_image'', Pickled (PyBytes ''A''))]"
  by (simp add: cache_named_twice_def cache_named_rows store_eval)

section \<open>The number of results\<close>

text \<open>
  C5, as the code has it. When the query can be encoded, every key of the store that ends
  in \<^verbatim>\<open>_embedding\<close> yields an entry (its blob unpickles to an array whose dot product with
  the query does not raise, and the image key computed from it unpickles too) and \<open>k\<close> is
  not negative, the search
  returns exactly \<open>min k n\<close> results, \<open>n\<close> the number of such keys; on the empty store that
  is the empty list.
\<close>

theorem search_length:
  assumes "encode_query RAG query = Inr qe" and "disk_cache RAG = Some c"
    and "\<forall>k\<in>set (iterkeys c). endswith k ''_embedding'' \<longrightarrow> (\<exists>h. scan_entry ext c qe k = Inr h)"
    and "0 \<le> k"
  shows "\<exists>rs. retrieve_from_disk ext RAG query k = Inr rs
           \<and> length rs
               = min (nat k) (length (filter (\<lambda>k. endswith k ''_embedding'') (iterkeys c)))"
proof -
  from assms(3) obtain xs where xs: "scan_keys ext c qe (iterkeys c) [] = Inr xs"
    using scan_keys_total by blast
  from scan_keys_Inr [OF xs]
  have "length xs = length (filter (\<lambda>k. endswith k ''_embedding'') (iterkeys c))"
    by (metis length_map)
  with xs assms show ?thesis
    by (simp add: retrieve_from_disk_def length_slice_to length_sort_reverse)
qed

theorem search_length_witness:
  "(\<exists>rs. retrieve_from_disk ext0 (rag_disk cache_ties) ''q'' 2 = Inr rs \<and> length rs = 2)
   \<and> (\<exists>rs. retrieve_from_disk ext0 (rag_disk cache_ties) ''q'' 5 = Inr rs \<and> length rs = 3)
   \<and> (\<exists>rs. retrieve_from_disk ext0 (rag_disk []) ''q'' 3 = Inr rs \<and> length rs = 0)"
  using search_length [where RAG = "rag_disk cache_ties" and query = "''q''" and qe = "[1, 0]"
        and c = cache_ties and ext = ext0 and k = 2]
    search_length [where RAG = "rag_disk cache_ties" and query = "''q''" and qe = "[1, 0]"
        and c = cache_ties and ext = ext0 and k = 5]
    search_length [where RAG = "rag_disk []" and query = "''q''" and qe = "[1, 0]"
        and c = "[]" and ext = ext0 and k = 3]
  by (simp add: rag_disk_def cache_ties_rows search_eval)

text \<open>
  The claim C5 fails on a store with one complete pair and one embedding whose image is
  missing: the search raises instead of returning the one valid entry. It fails too for
  \<open>k = -1\<close> on a store of three pairs: two results are returned.
\<close>

theorem search_length_counterexample:
  "retrieve_from_disk ext0 (rag_disk cache_orphan) ''q'' 3 = Inl TypeError
   \<and> (\<exists>rs. retrieve_from_disk ext0 (rag_disk cache_ties) ''q'' (- 1) = Inr rs \<and> length rs = 2)"
  by (simp add: rag_disk_def cache_orphan_rows cache_ties_rows search_eval)

section \<open>The order of the returned sequence\<close>

text \<open>
  C6, as the code has it. When no similarity computed during the scan is \<open>NaN\<close>, the
  sequence that the search returns is sorted by descending similarity, and entries of
  equal similarity appear in the lexical order of their keys: the keys are scanned in
  ascending order and the sort is stable.
\<close>

theorem search_sorted:
  assumes ret: "retrieve_from_disk ext RAG query k = Inr rs"
    and enc: "encode_query RAG query = Inr qe" and dc: "disk_cache RAG = Some c"
    and nan: "\<forall>k\<in>set (iterkeys c). endswith k ''_embedding'' \<longrightarrow>
                (\<forall>h. scan_entry ext c qe k = Inr h \<longrightarrow> similarity h \<noteq> NaN)"
  shows "sorted_wrt ranked_before rs"
proof -
  from ret enc dc obtain xs where xs: "scan_keys ext c qe (iterkeys c) [] = Inr xs"
    and rs: "rs = slice_to k (sort_reverse xs)"
    by (auto simp: retrieve_from_disk_def split: sum.splits)
  from scan_keys_Inr [OF xs]
  have keys: "map key xs = filter (\<lambda>k. endswith k ''_embedding'') (iterkeys c)"
    and ent: "\<forall>h\<in>set xs. scan_entry ext c qe (key h) = Inr h" by auto
  have "sorted_wrt (<) (map key xs)"
    unfolding keys using iterkeys_strict by (rule sorted_wrt_filter)
  then have s: "sorted_wrt (\<lambda>a b. key a < key b) xs"
    by (simp add: sorted_wrt_map)
  have "similarity h \<noteq> NaN" if "h \<in> set xs" for h
  proof -
    from that have "key h \<in> set (map key xs)" by simp
    then have "key h \<in> set (iterkeys c)" "endswith (key h) ''_embedding''"
      unfolding keys by simp_all
    moreover from ent that have "scan_entry ext c qe (key h) = Inr h" by simp
    ultimately show ?thesis using nan by blast
  qed
  with s have "sorted_wrt ranked_before (sort_reverse xs)"
    by (intro sorted_sort_reverse) auto
  then show ?thesis unfolding rs by (rule sorted_wrt_slice_to)
qed

theorem search_sorted_witness:
  "retrieve_from_disk ext0 (rag_disk cache_ties) ''q'' 3 =
     Inr [\<lparr>similarity = Finite 1, image = PyBytes ''A'', key = ''a.pdf_0_embedding''\<rparr>,
          \<lparr>similarity = Finite 1, image = PyBytes ''B'', key = ''b.pdf_0_embedding''\<rparr>,
          \<lparr>similarity = Finite 0, image = PyBytes ''C'', key = ''c.pdf_0_embedding''\<rparr>]
   \<and> sorted_wrt ranked_before
        [\<lparr>similarity = Finite 1, image = PyBytes ''A'', key = ''a.pdf_0_embedding''\<rparr>,
         \<lparr>similarity = Finite 1, image = PyBytes ''B'', key = ''b.pdf_0_embedding''\<rparr>,
         \<lparr>similarity = Finite 0, image = PyBytes ''C'', key = ''c.pdf_0_embedding''\<rparr>]"
proof -
  have ret: "retrieve_from_disk ext0 (rag_disk cache_ties) ''q'' 3 =
     Inr [\<lparr>similarity = Finite 1, image = PyBytes ''A'', key = ''a.pdf_0_embedding''\<rparr>,
          \<lparr>similarity = Finite 1, image = PyBytes ''B'', key = ''b.pdf_0_embedding''\<rparr>,
          \<lparr>similarity = Finite 0, image = PyBytes ''C'', key = ''c.pdf_0_embedding''\<rparr>]"
    by (simp add: rag_disk_def cache_ties_rows search_eval)
  have enc: "encode_query (rag_disk cache_ties) ''q'' = Inr [1, 0]"
    and dc: "disk_cache (rag_disk cache_ties) = Some cache_ties"
    by (simp_all add: rag_disk_def)
  have nan: "\<forall>k\<in>set (iterkeys cache_ties). endswith k ''_embedding'' \<longrightarrow>
               (\<forall>h. scan_entry ext0 cache_ties [1, 0] k = Inr h \<longrightarrow> similarity h \<noteq> NaN)"
    by (auto simp: cache_ties_rows search_eval)
  from search_sorted [OF ret enc dc nan] ret show ?thesis by simp
qed

text \<open>
  The claim C6 fails on a store of three pages whose middle embedding is the zero vector:
  its similarity is \<open>NaN\<close>, no comparison with it is true, and the sort leaves the pages in
  key order, the page of similarity \<open>0\<close> before the page of similarity \<open>1\<close>.
\<close>

theorem search_sorted_counterexample:
  "retrieve_from_disk ext0 (rag_disk cache_zero) ''q'' 3 =
     Inr [\<lparr>similarity = Finite 0, image = PyBytes ''A'', key = ''a.pdf_0_embedding''\<rparr>,
          \<lparr>similarity = NaN, image = PyBytes ''B'', key = ''b.pdf_0_embedding''\<rparr>,
          \<lparr>similarity = Finite 1, image = PyBytes ''C'', key = ''c.pdf_0_embedding''\<rparr>]
   \<and> \<not> sorted_wrt ranked_before
        [\<lparr>similarity = Finite 0, image = PyBytes ''A'', key = ''a.pdf_0_embedding''\<rparr>,
         \<lparr>similarity = NaN, image = PyBytes ''B'', key = ''b.pdf_0_embedding''\<rparr>,
         \<lparr>similarity = Finite 1, image = PyBytes ''C'', key = ''c.pdf_0_embedding''\<rparr>]"
  by (simp add: rag_disk_def cache_zero_rows search_eval ranked_before_def)

section \<open>The sibling key of an embedding key\<close>

text \<open>
  C10 at a file named \<^verbatim>\<open>a_embedding.pdf\<close>. The indexing loop stores page 0 under the keys
  \<^verbatim>\<open>a_embedding.pdf_0_image\<close> and \<^verbatim>\<open>a_embedding.pdf_0_embedding\<close>, and \<open>get_image\<close> finds the
  image. The search derives the image key by replacing every occurrence of \<^verbatim>\<open>_embedding\<close>,
  so it looks up \<^verbatim>\<open>a_image.pdf_0_image\<close>: with this file alone the search raises, and beside
  a file named \<^verbatim>\<open>a_image.pdf\<close> it returns the other file's image for this page.
\<close>

theorem sibling_key_replaces_every_occurrence:
  "py_replace ''a_embedding.pdf_0_embedding'' ''_embedding'' ''_image'' = ''a_image.pdf_0_image''
   \<and> get_image cache_named ''a_embedding.pdf_0'' = Inr (PyBytes ''A'')
   \<and> retrieve_from_disk ext0 (rag_disk cache_named) ''q'' 3 = Inl TypeError
   \<and> get_image cache_named_twice ''a_embedding.pdf_0'' = Inr (PyBytes ''A'')
   \<and> retrieve_from_disk ext0 (rag_disk cache_named_twice) ''q'' 3 =
       Inr [\<lparr>similarity = Finite 1, image = PyBytes ''B'', key = ''a_embedding.pdf_0_embedding''\<rparr>,
            \<lparr>similarity = Finite 0, image = PyBytes ''B'', key = ''a_image.pdf_0_embedding''\<rparr>]"
  by (simp add: rag_disk_def cache_named_rows cache_named_twice_rows search_eval get_image_def)

section \<open>Failures of single entries\<close>





section \<open>Materializing twice\<close>


lemmas path_eval = relative_path_def image_path_def image_filename_def os_path_join_def
  join2_def startswith_def endswith_def suffix_to_prefix




section \<open>The entry point and its handlers\<close>

text \<open>
  C4, as the code has it. \<open>retrieve_documents\<close> returns the materialized paths when the
  primary path succeeds. When the primary path raises an exception other than
  \<^verbatim>\<open>AttributeError\<close> it returns the empty list, with no second attempt. When the primary
  path raises \<^verbatim>\<open>AttributeError\<close> it runs the native search and the materializer once more,
  outside the \<^verbatim>\<open>try\<close> block, and their outcome is its own: an exception of the native
  search reaches the caller.
\<close>

theorem retrieve_documents_outcomes:
  "(primary_path ext RAG query session_id k fs = (Inr images, fs') \<longrightarrow>
      retrieve_documents ext RAG query session_id k fs = (Inr images, fs'))
   \<and> (primary_path ext RAG query session_id k fs = (Inl e, fs') \<longrightarrow> e \<noteq> AttributeError \<longrightarrow>
        retrieve_documents ext RAG query session_id k fs = (Inr [], fs'))
   \<and> (primary_path ext RAG query session_id k fs = (Inl AttributeError, fs') \<longrightarrow>
        retrieve_documents ext RAG query session_id k fs
          = fallback_path ext RAG query session_id k fs')
   \<and> (primary_path ext RAG query session_id k fs = (Inl AttributeError, fs') \<longrightarrow>
        search RAG query k = Inl e \<longrightarrow>
        retrieve_documents ext RAG query session_id k fs = (Inl e, fs'))"
  by (cases e) (simp_all add: retrieve_documents_def fallback_path_def)

lemma primary_native:
  "primary_path ext0 rag_native ''q'' ''s'' 3 fs0 =
     (Inr [''images/s/retrieved_A.png''],
      \<lparr>dirs = {''static/images/s''}, files = {''static/images/s/retrieved_A.png''},
       saves = [''static/images/s/retrieved_A.png'']\<rparr>)"
  by (simp add: primary_path_def rag_native_def disk_mode_def process_results_def ext0_def
      fs0_def makedirs_def save_if_absent_def image_save_def path_eval)

lemma primary_native_fails:
  "primary_path ext0 rag_native_fails ''q'' ''s'' 3 fs0 = (Inl ValueError, fs0)"
  by (simp add: primary_path_def rag_native_fails_def disk_mode_def)

lemma primary_no_encoder:
  "primary_path ext0 rag_no_encoder ''q'' ''s'' 3 fs0 = (Inl AttributeError, fs0)"
  by (simp add: primary_path_def rag_no_encoder_def disk_mode_def retrieve_from_disk_def)

theorem retrieve_documents_outcomes_witness:
  "retrieve_documents ext0 rag_native ''q'' ''s'' 3 fs0 =
     (Inr [''images/s/retrieved_A.png''],
      \<lparr>dirs = {''static/images/s''}, files = {''static/images/s/retrieved_A.png''},
       saves = [''static/images/s/retrieved_A.png'']\<rparr>)
   \<and> retrieve_documents ext0 rag_native_fails ''q'' ''s'' 3 fs0 = (Inr [], fs0)
   \<and> retrieve_documents ext0 rag_no_encoder ''q'' ''s'' 3 fs0
       = fallback_path ext0 rag_no_encoder ''q'' ''s'' 3 fs0
   \<and> retrieve_documents ext0 rag_no_encoder ''q'' ''s'' 3 fs0 = (Inl (ExternalError 0), fs0)"
proof -
  have search_raises: "search rag_no_encoder ''q'' 3 = Inl (ExternalError 0)"
    by (simp add: rag_no_encoder_def)
  have "ValueError \<noteq> AttributeError" by simp
  with retrieve_documents_outcomes
      [of ext0 rag_native "''q''" "''s''" 3 fs0 "[''images/s/retrieved_A.png'']"
          "\<lparr>dirs = {''static/images/s''}, files = {''static/images/s/retrieved_A.png''},
            saves = [''static/images/s/retrieved_A.png'']\<rparr>" ValueError]
    retrieve_documents_outcomes
      [of ext0 rag_native_fails "''q''" "''s''" 3 fs0 "[]" fs0 ValueError]
    retrieve_documents_outcomes
      [of ext0 rag_no_encoder "''q''" "''s''" 3 fs0 "[]" fs0 "ExternalError 0"]
    primary_native primary_native_fails primary_no_encoder search_raises
  show ?thesis by (simp add: fallback_path_def)
qed

text \<open>
  The claim C4 fails for a disk-backed model object that has no query encoder and whose
  native search raises: the fallback's exception reaches the caller.
\<close>

theorem retrieve_documents_raises_counterexample:
  "retrieve_documents ext0 rag_no_encoder ''q'' ''s'' 3 fs0 = (Inl (ExternalError 0), fs0)"
  by (simp add: retrieve_documents_def primary_path_def fallback_path_def rag_no_encoder_def
      disk_mode_def retrieve_from_disk_def)

end
